theory Spec2Isabelle
  imports Main "HOL-Library.Multiset" "HOL-Library.Product_Lexorder"
begin

section \<open>Persistence model (models.py)\<close>

text \<open>
  Each table is the list of its rows. Columns keep their names; a column name that occurs
  in several tables is prefixed by its table (\<open>users.id\<close> is \<open>users_id\<close>,
  \<open>messages.user_id\<close> is \<open>messages_user_id\<close>). Nullable text columns are
  \<open>string option\<close>. A \<open>DateTime\<close> is an integer count of clock ticks.
\<close>

record Follows =
  user_being_followed_id :: int
  user_following_id :: int

record Likes =
  likes_user_id :: int
  likes_message_id :: int

record User =
  users_id :: int
  email :: string
  username :: string
  image_url :: "string option"
  header_image_url :: "string option"
  bio :: "string option"
  location :: "string option"
  password :: string

record Message =
  messages_id :: int
  messages_text :: string
  timestamp :: int
  messages_user_id :: int

record database =
  users :: "User list"
  messages :: "Message list"
  follows :: "Follows list"
  likes :: "Likes list"

text \<open>\<open>User.query.get(i)\<close> and \<open>Message.query.get(i)\<close>: the row with that primary key.\<close>

definition User_get :: "database \<Rightarrow> int \<Rightarrow> User option" where
  "User_get db i = find (\<lambda>u. users_id u = i) (users db)"

definition Message_get :: "database \<Rightarrow> int \<Rightarrow> Message option" where
  "Message_get db i = find (\<lambda>m. messages_id m = i) (messages db)"

text \<open>
  The relationships of \<open>User\<close> through the secondary table \<open>follows\<close>:
  \<open>followers\<close> joins on \<open>user_being_followed_id = id\<close> and yields the rows of
  \<open>user_following_id\<close>; \<open>following\<close> is the converse.
\<close>

definition followers :: "database \<Rightarrow> User \<Rightarrow> User list" where
  "followers db u =
     filter (\<lambda>v. list_ex (\<lambda>f. user_being_followed_id f = users_id u
                             \<and> user_following_id f = users_id v) (follows db))
            (users db)"

definition following :: "database \<Rightarrow> User \<Rightarrow> User list" where
  "following db u =
     filter (\<lambda>v. list_ex (\<lambda>f. user_following_id f = users_id u
                             \<and> user_being_followed_id f = users_id v) (follows db))
            (users db)"

definition is_followed_by :: "database \<Rightarrow> User \<Rightarrow> User \<Rightarrow> bool" where
  "is_followed_by db self other_user =
     list_ex (\<lambda>u. users_id u = users_id other_user) (followers db self)"

definition is_following :: "database \<Rightarrow> User \<Rightarrow> User \<Rightarrow> bool" where
  "is_following db self other_user =
     list_ex (\<lambda>u. users_id u = users_id other_user) (following db self)"

section \<open>Follow suggestions (app.py, suggested_users_for)\<close>

text \<open>
  \<open>User.followers.any(id=i)\<close> for the row \<open>c\<close>: there is a row of \<open>follows\<close> whose
  followed side is \<open>c\<close> and whose following side joins to a user row with id \<open>i\<close>.
\<close>

definition followers_any :: "database \<Rightarrow> User \<Rightarrow> int \<Rightarrow> bool" where
  "followers_any db c i =
     list_ex (\<lambda>f. user_being_followed_id f = users_id c
                   \<and> list_ex (\<lambda>u1. user_following_id f = users_id u1 \<and> users_id u1 = i)
                        (users db))
             (follows db)"

text \<open>The rows that pass the \<open>filter(...)\<close> of the query.\<close>

definition candidates :: "database \<Rightarrow> User \<Rightarrow> User list" where
  "candidates db user =
     filter (\<lambda>c. users_id c \<noteq> users_id user \<and> \<not> followers_any db c (users_id user))
            (users db)"

text \<open>
  \<open>func.count(Follows.user_following_id)\<close> over the outer join on
  \<open>Follows.user_being_followed_id == User.id\<close>, grouped by \<open>User.id\<close>: the number of
  rows of \<open>follows\<close> whose followed side is \<open>c\<close> (a row of nulls counts as none).
\<close>

definition follower_count :: "database \<Rightarrow> User \<Rightarrow> nat" where
  "follower_count db c =
     length (filter (\<lambda>f. user_being_followed_id f = users_id c) (follows db))"

text \<open>
  \<open>order_by(count.desc(), User.id.asc())\<close> is a sort on the pair of the negated count and
  the id, in lexicographic order; \<open>limit\<close> keeps a prefix. The limit is a natural number
  (the database rejects a negative one; the only caller passes 5).
\<close>

definition rank_key :: "database \<Rightarrow> User \<Rightarrow> int \<times> int" where
  "rank_key db c = (- int (follower_count db c), users_id c)"

definition suggested_users_for :: "database \<Rightarrow> User option \<Rightarrow> nat \<Rightarrow> User list" where
  "suggested_users_for db user limit =
     (case user of
        None \<Rightarrow> []
      | Some u \<Rightarrow> take limit (sort_key (rank_key db) (candidates db u)))"




text \<open>
  \<open>add_user_to_g\<close>: the session holds the id of the logged-in user, or nothing;
  \<open>g.user\<close> is the row with that id, or \<open>None\<close>.
\<close>

definition add_user_to_g :: "database \<Rightarrow> int option \<Rightarrow> User option" where
  "add_user_to_g db session =
     (case session of Some i \<Rightarrow> User_get db i | None \<Rightarrow> None)"

section \<open>Request handlers (app.py)\<close>

text \<open>
  A handler takes the database and the session and returns its response, the messages it
  flashed and the database it leaves. Flashed messages, redirect targets and templates are
  enumerated; an unhandled Python exception is the response \<open>Raise\<close>, and
  \<open>get_or_404\<close> on a missing row is \<open>Abort 404\<close>.
\<close>

datatype flash =
    Access_unauthorized
  | Cannot_like_own_message
  | Feed_is_empty
  | Incorrect_password
  | Profile_updated
  | Username_or_email_taken

datatype url =
    Url_root
  | Url_signup
  | Url_user int
  | Url_user_following int
  | Url_referrer_or url

datatype py_error = ValueError | IntegrityError

record EditProfileForm =
  form_username :: string
  form_email :: string
  form_image_url :: string
  form_header_image_url :: string
  form_location :: string
  form_bio :: string
  form_password :: string

datatype template =
    Home_anon
  | Home "Message list" "int set" "User list"
  | Users_show User "Message list" "int set"
  | Users_edit EditProfileForm

datatype response =
    Redirect url
  | Render_template template
  | Abort nat
  | Raise py_error

type_synonym outcome = "response \<times> flash list \<times> database"

text \<open>
  \<open>order_by(Message.timestamp.desc()).limit(n)\<close>. SQL leaves the order of rows with equal
  timestamps open; the model keeps them in table order (a stable sort).
\<close>

definition newest :: "nat \<Rightarrow> Message list \<Rightarrow> Message list" where
  "newest n ms = take n (sort_key (\<lambda>m. - timestamp m) ms)"

text \<open>The relationship \<open>User.likes\<close> through the secondary table \<open>likes\<close>.\<close>

definition User_likes :: "database \<Rightarrow> User \<Rightarrow> Message list" where
  "User_likes db u =
     filter (\<lambda>m. list_ex (\<lambda>l. likes_user_id l = users_id u
                             \<and> likes_message_id l = messages_id m) (likes db))
            (messages db)"

definition liked_ids_of :: "database \<Rightarrow> User option \<Rightarrow> int set" where
  "liked_ids_of db g_user =
     (case g_user of Some u \<Rightarrow> set (map messages_id (User_likes db u)) | None \<Rightarrow> {})"

subsection \<open>homepage\<close>

definition homepage :: "database \<Rightarrow> int option \<Rightarrow> outcome" where
  "homepage db session =
     (case add_user_to_g db session of
        None \<Rightarrow> (Render_template Home_anon, [], db)
      | Some g_user \<Rightarrow>
          let ids = map users_id (following db g_user) @ [users_id g_user];
              followed_feed =
                newest 100 (filter (\<lambda>m. messages_user_id m \<in> set ids) (messages db));
              fallback = (following db g_user = []);
              msgs = (if fallback then newest 50 (messages db) else followed_feed);
              flashed = (if fallback then [Feed_is_empty] else []);
              liked_ids = liked_ids_of db (Some g_user);
              suggested = suggested_users_for db (Some g_user) 5
          in (Render_template (Home msgs liked_ids suggested), flashed, db))"

text \<open>What the feed is specified to hold, and what "the n most recent, newest first" means.\<close>

definition authored_by_self_or_followee :: "database \<Rightarrow> User \<Rightarrow> Message \<Rightarrow> bool" where
  "authored_by_self_or_followee db u m \<longleftrightarrow>
     messages_user_id m = users_id u
     \<or> list_ex (\<lambda>v. users_id v = messages_user_id m) (following db u)"

definition most_recent :: "nat \<Rightarrow> Message list \<Rightarrow> Message list \<Rightarrow> bool" where
  "most_recent n src msgs \<longleftrightarrow>
     sorted_wrt (\<lambda>a b. timestamp b \<le> timestamp a) msgs
     \<and> mset msgs \<subseteq># mset src
     \<and> length msgs = min n (length src)
     \<and> (\<forall>m \<in># mset src - mset msgs. \<forall>x \<in> set msgs. timestamp m \<le> timestamp x)"

subsection \<open>users_show\<close>

definition users_show :: "database \<Rightarrow> int option \<Rightarrow> int \<Rightarrow> outcome" where
  "users_show db session user_id =
     (case User_get db user_id of
        None \<Rightarrow> (Abort 404, [], db)
      | Some user \<Rightarrow>
          let msgs = newest 100 (filter (\<lambda>m. messages_user_id m = user_id) (messages db));
              liked_ids = liked_ids_of db (add_user_to_g db session)
          in (Render_template (Users_show user msgs liked_ids), [], db))"

subsection \<open>add_follow and stop_following\<close>

text \<open>
  \<open>g.user.following.append(v)\<close> followed by a commit inserts the row of \<open>follows\<close> for
  the pair. There is no membership test: when the row is already in the table the insert
  violates the primary key, the commit raises \<open>IntegrityError\<close>, which \<open>add_follow\<close>
  does not catch, and nothing is written.
\<close>

definition following_append :: "database \<Rightarrow> User \<Rightarrow> User \<Rightarrow> py_error + database" where
  "following_append db g_user v =
     (let row = \<lparr>user_being_followed_id = users_id v, user_following_id = users_id g_user\<rparr>
      in if row \<in> set (follows db) then Inl IntegrityError
         else Inr (db\<lparr>follows := follows db @ [row]\<rparr>))"

definition add_follow :: "database \<Rightarrow> int option \<Rightarrow> int \<Rightarrow> outcome" where
  "add_follow db session follow_id =
     (case add_user_to_g db session of
        None \<Rightarrow> (Redirect Url_root, [Access_unauthorized], db)
      | Some g_user \<Rightarrow>
          (case User_get db follow_id of
             None \<Rightarrow> (Abort 404, [], db)
           | Some followed_user \<Rightarrow>
               (case following_append db g_user followed_user of
                  Inl e \<Rightarrow> (Raise e, [], db)
                | Inr db' \<Rightarrow> (Redirect (Url_user_following (users_id g_user)), [], db'))))"

text \<open>
  \<open>g.user.following.remove(x)\<close> is Python's \<open>list.remove\<close>: it raises \<open>ValueError\<close>
  when \<open>x\<close> is not in the list, and \<open>x\<close> is \<open>None\<close> when \<open>User.query.get\<close> found no
  row. The commit after a removal deletes the row of \<open>follows\<close> for the pair.
\<close>

definition following_remove :: "database \<Rightarrow> User \<Rightarrow> User option \<Rightarrow> py_error + database" where
  "following_remove db g_user x =
     (case x of
        None \<Rightarrow> Inl ValueError
      | Some v \<Rightarrow>
          if v \<in> set (following db g_user)
          then Inr (db\<lparr>follows :=
                 filter (\<lambda>f. \<not> (user_following_id f = users_id g_user
                                  \<and> user_being_followed_id f = users_id v)) (follows db)\<rparr>)
          else Inl ValueError)"

definition stop_following :: "database \<Rightarrow> int option \<Rightarrow> int \<Rightarrow> outcome" where
  "stop_following db session follow_id =
     (case add_user_to_g db session of
        None \<Rightarrow> (Redirect Url_root, [Access_unauthorized], db)
      | Some g_user \<Rightarrow>
          let followed_user = User_get db follow_id
          in (case following_remove db g_user followed_user of
                Inl e \<Rightarrow> (Raise e, [], db)
              | Inr db' \<Rightarrow> (Redirect (Url_user_following (users_id g_user)), [], db')))"

subsection \<open>profile\<close>

text \<open>
  \<open>User.authenticate\<close>; \<open>bcrypt.check_password_hash\<close> is a parameter. The Python
  returns \<open>False\<close> where the model returns \<open>None\<close>.
\<close>

definition authenticate ::
  "(string \<Rightarrow> string \<Rightarrow> bool) \<Rightarrow> database \<Rightarrow> string \<Rightarrow> string \<Rightarrow> User option" where
  "authenticate check_password_hash db uname pw =
     (case find (\<lambda>u. username u = uname) (users db) of
        None \<Rightarrow> None
      | Some user \<Rightarrow> if check_password_hash (password user) pw then Some user else None)"

text \<open>\<open>data or previous\<close> for a submitted text field: the empty string is falsy.\<close>

definition data_or :: "string \<Rightarrow> string option \<Rightarrow> string option" where
  "data_or data previous = (if data = [] then previous else Some data)"

text \<open>The unique constraints on \<open>users.username\<close> and \<open>users.email\<close>, checked by a commit.\<close>

definition unique_ok :: "database \<Rightarrow> bool" where
  "unique_ok db \<longleftrightarrow> distinct (map username (users db)) \<and> distinct (map email (users db))"

text \<open>
  The POST branch of \<open>profile\<close>. \<open>validate_on_submit\<close> is the result of
  \<open>form.validate_on_submit()\<close>; the form holds the submitted text of each field. The
  commit writes the changed row under its primary key, or raises \<open>IntegrityError\<close> and is
  rolled back.
\<close>

definition profile ::
  "(string \<Rightarrow> string \<Rightarrow> bool) \<Rightarrow> database \<Rightarrow> int option \<Rightarrow> bool \<Rightarrow> EditProfileForm \<Rightarrow> outcome" where
  "profile check_password_hash db session validate_on_submit form =
     (case add_user_to_g db session of
        None \<Rightarrow> (Redirect Url_root, [Access_unauthorized], db)
      | Some g_user \<Rightarrow>
          if validate_on_submit then
            (case authenticate check_password_hash db (username g_user) (form_password form) of
               None \<Rightarrow> (Render_template (Users_edit form), [Incorrect_password], db)
             | Some user \<Rightarrow>
                 let g_user' = g_user
                       \<lparr>username := form_username form,
                        email := form_email form,
                        image_url := data_or (form_image_url form) (image_url g_user),
                        header_image_url :=
                          data_or (form_header_image_url form) (header_image_url g_user),
                        location := Some (form_location form),
                        bio := Some (form_bio form)\<rparr>;
                     db' = db\<lparr>users :=
                             map (\<lambda>r. if users_id r = users_id g_user then g_user' else r)
                                 (users db)\<rparr>
                 in if unique_ok db'
                    then (Redirect (Url_user (users_id g_user)), [Profile_updated], db')
                    else (Render_template (Users_edit form), [Username_or_email_taken], db))
          else (Render_template (Users_edit form), [], db))"

subsection \<open>delete_user\<close>

text \<open>
  \<open>db.session.delete(g.user)\<close> and the commit. Every foreign key of models.py is declared
  \<open>ondelete="CASCADE"\<close>: deleting messages deletes the likes of those messages
  (\<open>likes.message_id\<close>), and deleting a user deletes the follows rows of either side
  (\<open>follows.user_being_followed_id\<close>, \<open>follows.user_following_id\<close>), the user's likes
  (\<open>likes.user_id\<close>) and the user's messages (\<open>messages.user_id\<close>).
\<close>

definition delete_messages_where :: "(Message \<Rightarrow> bool) \<Rightarrow> database \<Rightarrow> database" where
  "delete_messages_where P db =
     db\<lparr>messages := filter (\<lambda>m. \<not> P m) (messages db),
        likes := filter (\<lambda>l. \<not> list_ex (\<lambda>m. P m \<and> messages_id m = likes_message_id l)
                                  (messages db))
                        (likes db)\<rparr>"

definition session_delete_user :: "database \<Rightarrow> User \<Rightarrow> database" where
  "session_delete_user db u =
     (let i = users_id u;
          db1 = db\<lparr>users := filter (\<lambda>r. users_id r \<noteq> i) (users db)\<rparr>;
          db2 = db1\<lparr>follows :=
                  filter (\<lambda>f. user_being_followed_id f \<noteq> i \<and> user_following_id f \<noteq> i)
                         (follows db1)\<rparr>;
          db3 = db2\<lparr>likes := filter (\<lambda>l. likes_user_id l \<noteq> i) (likes db2)\<rparr>
      in delete_messages_where (\<lambda>m. messages_user_id m = i) db3)"

text \<open>\<open>do_logout\<close> clears the session, so this handler returns the session as well.\<close>

definition delete_user :: "database \<Rightarrow> int option \<Rightarrow> outcome \<times> int option" where
  "delete_user db session =
     (case add_user_to_g db session of
        None \<Rightarrow> ((Redirect Url_root, [Access_unauthorized], db), session)
      | Some g_user \<Rightarrow> ((Redirect Url_signup, [], session_delete_user db g_user), None))"

text \<open>Referential integrity: every foreign key points at a row.\<close>

definition fk_ok :: "database \<Rightarrow> bool" where
  "fk_ok db \<longleftrightarrow>
     list_all (\<lambda>m. list_ex (\<lambda>u. users_id u = messages_user_id m) (users db)) (messages db)
     \<and> list_all (\<lambda>f. list_ex (\<lambda>u. users_id u = user_being_followed_id f) (users db)
                    \<and> list_ex (\<lambda>u. users_id u = user_following_id f) (users db)) (follows db)
     \<and> list_all (\<lambda>l. list_ex (\<lambda>u. users_id u = likes_user_id l) (users db)
                    \<and> list_ex (\<lambda>m. messages_id m = likes_message_id l) (messages db)) (likes db)"

subsection \<open>toggle_like\<close>

text \<open>\<open>Likes.query.filter_by(user_id=u, message_id=m)\<close> and \<open>.first()\<close>.\<close>

definition Likes_filter_by :: "database \<Rightarrow> int \<Rightarrow> int \<Rightarrow> Likes list" where
  "Likes_filter_by db u m =
     filter (\<lambda>l. likes_user_id l = u \<and> likes_message_id l = m) (likes db)"

definition first :: "'a list \<Rightarrow> 'a option" where
  "first rows = (case rows of [] \<Rightarrow> None | r # _ \<Rightarrow> Some r)"

text \<open>
  \<open>db.session.delete(like)\<close> deletes under the primary key of the row, which is the pair of
  its columns; \<open>db.session.add(Likes(...))\<close> inserts a row.
\<close>

definition session_delete_like :: "database \<Rightarrow> Likes \<Rightarrow> database" where
  "session_delete_like db like =
     db\<lparr>likes := filter (\<lambda>l. \<not> (likes_user_id l = likes_user_id like
                                  \<and> likes_message_id l = likes_message_id like)) (likes db)\<rparr>"

definition session_add_like :: "database \<Rightarrow> Likes \<Rightarrow> database" where
  "session_add_like db like = db\<lparr>likes := likes db @ [like]\<rparr>"

definition toggle_like :: "database \<Rightarrow> int option \<Rightarrow> int \<Rightarrow> outcome" where
  "toggle_like db session message_id =
     (case add_user_to_g db session of
        None \<Rightarrow> (Redirect Url_root, [Access_unauthorized], db)
      | Some g_user \<Rightarrow>
          (case Message_get db message_id of
             None \<Rightarrow> (Abort 404, [], db)
           | Some msg \<Rightarrow>
               if messages_user_id msg = users_id g_user
               then (Redirect (Url_referrer_or (Url_user (users_id g_user))),
                     [Cannot_like_own_message], db)
               else
                 (case first (Likes_filter_by db (users_id g_user) message_id) of
                    Some like \<Rightarrow>
                      (Redirect (Url_referrer_or Url_root), [], session_delete_like db like)
                  | None \<Rightarrow>
                      (Redirect (Url_referrer_or Url_root), [],
                       session_add_like db
                         \<lparr>likes_user_id = users_id g_user, likes_message_id = message_id\<rparr>))))"

text \<open>Whether the user likes the message.\<close>

definition is_liked :: "database \<Rightarrow> int \<Rightarrow> int \<Rightarrow> bool" where
  "is_liked db u m \<longleftrightarrow> Likes_filter_by db u m \<noteq> []"

section \<open>Concrete databases\<close>

definition mk_user :: "int \<Rightarrow> string \<Rightarrow> User" where
  "mk_user i n =
     \<lparr>users_id = i, email = n @ ''@example.com'', username = n,
      image_url = Some ''/static/images/default-pic.png'',
      header_image_url = Some ''/static/images/warbler-hero.jpg'',
      bio = None, location = None, password = ''$2b$12$hash-of-'' @ n\<rparr>"

definition alice :: User where "alice = mk_user 1 ''alice''"
definition bob :: User where "bob = mk_user 2 ''bob''"
definition carol :: User where "carol = mk_user 3 ''carol''"

text \<open>Bob follows Alice; Alice follows nobody.\<close>

definition db_fan :: database where
  "db_fan =
     \<lparr>users = [alice, bob], messages = [],
      follows = [\<lparr>user_being_followed_id = 1, user_following_id = 2\<rparr>],
      likes = []\<rparr>"

text \<open>The same with Carol, whom nobody follows and who follows nobody.\<close>

definition db_two :: database where
  "db_two =
     \<lparr>users = [alice, bob, carol], messages = [],
      follows = [\<lparr>user_being_followed_id = 1, user_following_id = 2\<rparr>],
      likes = []\<rparr>"



text \<open>
  A database with messages: Alice follows Bob, Carol follows Alice and Bob, Bob follows
  nobody; Alice and Carol like Bob's first message and Bob likes Alice's message.
\<close>

definition mk_message :: "int \<Rightarrow> int \<Rightarrow> int \<Rightarrow> Message" where
  "mk_message i t u =
     \<lparr>messages_id = i, messages_text = ''warble'', timestamp = t, messages_user_id = u\<rparr>"

definition m1 :: Message where "m1 = mk_message 1 10 2"
definition m2 :: Message where "m2 = mk_message 2 20 3"
definition m3 :: Message where "m3 = mk_message 3 30 1"
definition m4 :: Message where "m4 = mk_message 4 40 2"

definition db_feed :: database where
  "db_feed =
     \<lparr>users = [alice, bob, carol], messages = [m1, m2, m3, m4],
      follows = [\<lparr>user_being_followed_id = 2, user_following_id = 1\<rparr>,
                 \<lparr>user_being_followed_id = 1, user_following_id = 3\<rparr>,
                 \<lparr>user_being_followed_id = 2, user_following_id = 3\<rparr>],
      likes = [\<lparr>likes_user_id = 1, likes_message_id = 1\<rparr>,
               \<lparr>likes_user_id = 2, likes_message_id = 3\<rparr>,
               \<lparr>likes_user_id = 3, likes_message_id = 1\<rparr>]\<rparr>"

text \<open>The same database once Alice is deleted.\<close>

definition db_feed_without_alice :: database where
  "db_feed_without_alice =
     \<lparr>users = [bob, carol], messages = [m1, m2, m4],
      follows = [\<lparr>user_being_followed_id = 2, user_following_id = 3\<rparr>],
      likes = [\<lparr>likes_user_id = 3, likes_message_id = 1\<rparr>]\<rparr>"

text \<open>
  A password check for the examples (the stored text ends in the password), a submitted
  profile form with a blank image URL, and Alice's row once the form is applied.
\<close>

definition example_check :: "string \<Rightarrow> string \<Rightarrow> bool" where
  "example_check stored supplied \<longleftrightarrow> stored = ''$2b$12$hash-of-'' @ supplied"

definition form_alice :: EditProfileForm where
  "form_alice =
     \<lparr>form_username = ''alice2'', form_email = ''alice2@example.com'',
      form_image_url = '''', form_header_image_url = ''/static/images/new.jpg'',
      form_location = ''Paris'', form_bio = ''hello'', form_password = ''alice''\<rparr>"

definition alice_edited :: User where
  "alice_edited =
     \<lparr>users_id = 1, email = ''alice2@example.com'', username = ''alice2'',
      image_url = Some ''/static/images/default-pic.png'',
      header_image_url = Some ''/static/images/new.jpg'',
      bio = Some ''hello'', location = Some ''Paris'',
      password = ''$2b$12$hash-of-alice''\<rparr>"

section \<open>Queries: the first rows of a sorted table\<close>

lemma top_n_sorted: "sorted (map f (take n (sort_key f xs)))"
  by (simp add: take_map [symmetric] del: take_map)

lemma top_n_mset: "mset (take n (sort_key f xs)) \<subseteq># mset xs"
proof -
  have "mset (take n (sort_key f xs)) \<subseteq># mset (sort_key f xs)"
    by (metis append_take_drop_id mset_append mset_subset_eq_add_left)
  then show ?thesis by simp
qed

lemma top_n_length: "length (take n (sort_key f xs)) = min n (length xs)"
  by (simp add: min.commute)

lemma top_n_rest:
  assumes "x \<in># mset xs - mset (take n (sort_key f xs))"
    and "r \<in> set (take n (sort_key f xs))"
  shows "f r \<le> f x"
proof -
  let ?ys = "sort_key f xs"
  have "mset xs = mset (take n ?ys) + mset (drop n ?ys)"
    by (metis append_take_drop_id mset_append mset_sort)
  then have "mset xs - mset (take n ?ys) = mset (drop n ?ys)" by simp
  with assms(1) have x: "x \<in> set (drop n ?ys)" by simp
  have "sorted (map f (take n ?ys @ drop n ?ys))" by simp
  then have "\<forall>a\<in>set (take n ?ys). \<forall>b\<in>set (drop n ?ys). f a \<le> f b"
    unfolding map_append sorted_append by auto
  with x assms(2) show ?thesis by blast
qed

lemma User_get_SomeD: "User_get db i = Some u \<Longrightarrow> u \<in> set (users db) \<and> users_id u = i"
  by (auto simp: User_get_def find_Some_iff)

lemma add_user_to_g_SomeD:
  "add_user_to_g db session = Some u \<Longrightarrow> u \<in> set (users db) \<and> session = Some (users_id u)"
  by (auto simp: add_user_to_g_def split: option.splits dest: User_get_SomeD)

section \<open>Follow suggestions\<close>


lemma suggested_subset_candidates:
  "c \<in> set (suggested_users_for db (Some u) limit) \<Longrightarrow> c \<in> set (candidates db u)"
  by (auto simp: suggested_users_for_def dest: in_set_takeD)

text \<open>
  C1, as the code has it. The suggestions for a logged-in user never contain that user, and
  never contain a user whom the logged-in user already follows: the filter
  \<open>~User.followers.any(id=user.id)\<close> tests whether the logged-in user is among the
  followers of the candidate.
\<close>

theorem suggested_excludes_self_and_followed:
  assumes "add_user_to_g db session = Some u"
    and "c \<in> set (suggested_users_for db (Some u) limit)"
  shows "users_id c \<noteq> users_id u \<and> \<not> is_following db u c"
proof -
  from assms(1) have u: "u \<in> set (users db)"
    by (simp add: add_user_to_g_SomeD)
  from assms(2) have c: "users_id c \<noteq> users_id u" "\<not> followers_any db c (users_id u)"
    using suggested_subset_candidates [of c db u limit] by (auto simp: candidates_def)
  have "\<not> is_following db u c"
  proof
    assume "is_following db u c"
    then obtain f where "f \<in> set (follows db)" "user_following_id f = users_id u"
      "user_being_followed_id f = users_id c"
      by (auto simp: is_following_def following_def list_ex_iff)
    with u have "followers_any db c (users_id u)"
      by (auto simp: followers_any_def list_ex_iff)
    with c(2) show False by simp
  qed
  with c(1) show ?thesis by simp
qed

theorem suggested_excludes_witness:
  "add_user_to_g db_two (Some 2) = Some bob
   \<and> carol \<in> set (suggested_users_for db_two (Some bob) 5)
   \<and> users_id carol \<noteq> users_id bob \<and> \<not> is_following db_two bob carol"
proof -
  have 1: "add_user_to_g db_two (Some 2) = Some bob" by code_simp
  have 2: "carol \<in> set (suggested_users_for db_two (Some bob) 5)" by code_simp
  show ?thesis using 1 2 suggested_excludes_self_and_followed [OF 1 2] by simp
qed

text \<open>
  C1, as the specification states it, fails: Bob follows Alice, Alice does not follow Bob,
  and Bob is suggested to Alice.
\<close>

theorem suggested_includes_follower_of_user:
  "add_user_to_g db_fan (Some 1) = Some alice
   \<and> is_followed_by db_fan alice bob
   \<and> bob \<in> set (suggested_users_for db_fan (Some alice) 5)"
  by code_simp





section \<open>Home feed\<close>

lemma newest_most_recent: "most_recent n src (newest n src)"
proof -
  let ?f = "\<lambda>m. - timestamp m"
  have "sorted (map ?f (take n (sort_key ?f src)))" by (rule top_n_sorted)
  then have "sorted_wrt (\<lambda>a b. ?f a \<le> ?f b) (take n (sort_key ?f src))"
    by (simp only: sorted_map)
  then have s: "sorted_wrt (\<lambda>a b. timestamp b \<le> timestamp a) (newest n src)"
    unfolding newest_def by (rule sorted_wrt_mono_rel [rotated]) simp
  have r: "\<forall>m \<in># mset src - mset (newest n src). \<forall>x \<in> set (newest n src).
             timestamp m \<le> timestamp x"
    unfolding newest_def
  proof (intro ballI)
    fix m x
    assume "m \<in># mset src - mset (take n (sort_key ?f src))"
      and "x \<in> set (take n (sort_key ?f src))"
    then have "?f x \<le> ?f m" by (rule top_n_rest)
    then show "timestamp m \<le> timestamp x" by simp
  qed
  have m: "mset (newest n src) \<subseteq># mset src"
    unfolding newest_def by (rule top_n_mset)
  have l: "length (newest n src) = min n (length src)"
    unfolding newest_def by (rule top_n_length)
  from s m l r show ?thesis unfolding most_recent_def by blast
qed

lemma feed_filter_eq:
  "filter (\<lambda>m. messages_user_id m \<in> set (map users_id (following db u) @ [users_id u]))
          (messages db)
   = filter (authored_by_self_or_followee db u) (messages db)"
proof (rule filter_cong [OF refl])
  fix m :: Message
  have "messages_user_id m \<in> users_id ` set (following db u)
        \<longleftrightarrow> (\<exists>v \<in> set (following db u). users_id v = messages_user_id m)"
    by force
  then show "(messages_user_id m \<in> set (map users_id (following db u) @ [users_id u]))
             = authored_by_self_or_followee db u m"
    by (auto simp: authored_by_self_or_followee_def list_ex_iff)
qed

text \<open>
  C2. For a logged-in user who follows at least one other user, the home page renders the
  messages written by the user or by someone the user follows, newest first, the 100 most
  recent of them at most, and flashes nothing. For a logged-in user who follows nobody it
  renders the 50 most recent messages of all users, newest first, and flashes the notice
  that the feed is empty.
\<close>

theorem homepage_feed:
  assumes "add_user_to_g db session = Some u"
  shows "((\<exists>v \<in> set (following db u). users_id v \<noteq> users_id u) \<longrightarrow>
            (\<exists>msgs liked_ids suggested.
               homepage db session = (Render_template (Home msgs liked_ids suggested), [], db)
               \<and> most_recent 100 (filter (authored_by_self_or_followee db u) (messages db)) msgs
               \<and> length msgs \<le> 100))
         \<and> (following db u = [] \<longrightarrow>
            (\<exists>msgs liked_ids suggested.
               homepage db session
                 = (Render_template (Home msgs liked_ids suggested), [Feed_is_empty], db)
               \<and> most_recent 50 (messages db) msgs
               \<and> length msgs \<le> 50))"
proof (intro conjI impI)
  assume "\<exists>v \<in> set (following db u). users_id v \<noteq> users_id u"
  then have ne: "following db u \<noteq> []" by auto
  let ?src = "filter (authored_by_self_or_followee db u) (messages db)"
  have h: "homepage db session
        = (Render_template (Home (newest 100 ?src) (liked_ids_of db (Some u))
             (suggested_users_for db (Some u) 5)), [], db)"
    unfolding homepage_def Let_def feed_filter_eq using assms ne by simp
  have "length (newest 100 ?src) \<le> 100" by (simp add: newest_def)
  with h newest_most_recent [of 100 ?src]
  show "\<exists>msgs liked_ids suggested.
               homepage db session = (Render_template (Home msgs liked_ids suggested), [], db)
               \<and> most_recent 100 ?src msgs \<and> length msgs \<le> 100"
    by blast
next
  assume e: "following db u = []"
  have h: "homepage db session
        = (Render_template (Home (newest 50 (messages db)) (liked_ids_of db (Some u))
             (suggested_users_for db (Some u) 5)), [Feed_is_empty], db)"
    using assms e by (simp add: homepage_def Let_def)
  have "length (newest 50 (messages db)) \<le> 50" by (simp add: newest_def)
  with h newest_most_recent [of 50 "messages db"]
  show "\<exists>msgs liked_ids suggested.
               homepage db session
                 = (Render_template (Home msgs liked_ids suggested), [Feed_is_empty], db)
               \<and> most_recent 50 (messages db) msgs \<and> length msgs \<le> 50"
    by blast
qed


theorem homepage_feed_witness:
  "add_user_to_g db_feed (Some 1) = Some alice
   \<and> (\<exists>v \<in> set (following db_feed alice). users_id v \<noteq> users_id alice)
   \<and> homepage db_feed (Some 1) = (Render_template (Home [m4, m3, m1] {1} [carol]), [], db_feed)
   \<and> most_recent 100 (filter (authored_by_self_or_followee db_feed alice) (messages db_feed))
        [m4, m3, m1]
   \<and> add_user_to_g db_feed (Some 2) = Some bob
   \<and> following db_feed bob = []
   \<and> homepage db_feed (Some 2)
       = (Render_template (Home [m4, m3, m2, m1] {3} [alice, carol]), [Feed_is_empty], db_feed)
   \<and> most_recent 50 (messages db_feed) [m4, m3, m2, m1]"
proof -
  have a: "add_user_to_g db_feed (Some 1) = Some alice" by code_simp
  have af: "\<exists>v \<in> set (following db_feed alice). users_id v \<noteq> users_id alice" by code_simp
  have ah: "homepage db_feed (Some 1)
              = (Render_template (Home [m4, m3, m1] {1} [carol]), [], db_feed)"
    by code_simp
  have b: "add_user_to_g db_feed (Some 2) = Some bob" by code_simp
  have bf: "following db_feed bob = []" by code_simp
  have bh: "homepage db_feed (Some 2)
       = (Render_template (Home [m4, m3, m2, m1] {3} [alice, carol]), [Feed_is_empty], db_feed)"
    by code_simp
  from homepage_feed [OF a] af ah
  have 1: "most_recent 100 (filter (authored_by_self_or_followee db_feed alice) (messages db_feed))
        [m4, m3, m1]" by auto
  from homepage_feed [OF b] bf bh
  have 2: "most_recent 50 (messages db_feed) [m4, m3, m2, m1]" by auto
  from a af ah b bf bh 1 2 show ?thesis by blast
qed

section \<open>Likes toggle\<close>

lemma toggle_like_frame:
  "toggle_like db session mid = (r, fl, db') \<Longrightarrow>
     users db' = users db \<and> messages db' = messages db \<and> follows db' = follows db"
  by (auto simp: toggle_like_def session_delete_like_def session_add_like_def
           split: option.splits if_splits)

lemma toggle_like_likes:
  assumes "add_user_to_g db session = Some u" and "Message_get db mid = Some msg"
    and "messages_user_id msg \<noteq> users_id u"
  shows "likes (snd (snd (toggle_like db session mid)))
         = (if is_liked db (users_id u) mid
            then filter (\<lambda>l. \<not> (likes_user_id l = users_id u \<and> likes_message_id l = mid))
                        (likes db)
            else likes db @ [\<lparr>likes_user_id = users_id u, likes_message_id = mid\<rparr>])"
proof (cases "Likes_filter_by db (users_id u) mid")
  case Nil
  with assms show ?thesis
    by (simp add: toggle_like_def first_def is_liked_def session_add_like_def)
next
  case (Cons l ls)
  then have "l \<in> set (Likes_filter_by db (users_id u) mid)" by simp
  then have "likes_user_id l = users_id u \<and> likes_message_id l = mid"
    by (simp add: Likes_filter_by_def)
  with Cons assms show ?thesis
    by (simp add: toggle_like_def first_def is_liked_def session_delete_like_def)
qed

lemma toggle_like_same_request:
  assumes "add_user_to_g db session = Some u" and "Message_get db mid = Some msg"
  shows "add_user_to_g (snd (snd (toggle_like db session mid))) session = Some u
         \<and> Message_get (snd (snd (toggle_like db session mid))) mid = Some msg"
proof -
  obtain r fl db' where t: "toggle_like db session mid = (r, fl, db')"
    by (cases "toggle_like db session mid") auto
  from toggle_like_frame [OF t]
  have "users db' = users db" and "messages db' = messages db" by simp_all
  with assms show ?thesis
    unfolding t snd_conv add_user_to_g_def User_get_def Message_get_def
    by (simp split: option.splits)
qed

text \<open>
  C4. A logged-in user who is not the author of an existing message toggles the like twice:
  the first toggle flips whether the user likes the message, the second restores it, the
  table holds the same rows as before, and after each toggle it holds at most one row for
  the pair (the table starts with distinct rows, its primary key being the pair).
\<close>

theorem toggle_like_twice:
  assumes g: "add_user_to_g db session = Some u"
    and m: "Message_get db mid = Some msg"
    and na: "messages_user_id msg \<noteq> users_id u"
    and pk: "distinct (likes db)"
    and db1: "db1 = snd (snd (toggle_like db session mid))"
    and db2: "db2 = snd (snd (toggle_like db1 session mid))"
  shows "is_liked db1 (users_id u) mid = (\<not> is_liked db (users_id u) mid)
         \<and> is_liked db2 (users_id u) mid = is_liked db (users_id u) mid
         \<and> set (likes db2) = set (likes db)
         \<and> length (Likes_filter_by db1 (users_id u) mid) \<le> 1
         \<and> length (Likes_filter_by db2 (users_id u) mid) \<le> 1
         \<and> distinct (likes db1) \<and> distinct (likes db2)"
proof -
  let ?new = "\<lparr>likes_user_id = users_id u, likes_message_id = mid\<rparr>"
  let ?other = "\<lambda>l. \<not> (likes_user_id l = users_id u \<and> likes_message_id l = mid)"
  have key: "\<And>l::Likes. ?other l \<longleftrightarrow> l \<noteq> ?new" by auto
  have l1: "likes db1 = (if is_liked db (users_id u) mid then filter ?other (likes db)
                         else likes db @ [?new])"
    unfolding db1 by (rule toggle_like_likes [OF g m na])
  from toggle_like_same_request [OF g m]
  have g1: "add_user_to_g db1 session = Some u" and m1: "Message_get db1 mid = Some msg"
    unfolding db1 by simp_all
  have l2: "likes db2 = (if is_liked db1 (users_id u) mid then filter ?other (likes db1)
                         else likes db1 @ [?new])"
    unfolding db2 by (rule toggle_like_likes [OF g1 m1 na])
  have liked_iff: "is_liked d (users_id u) mid \<longleftrightarrow> ?new \<in> set (likes d)" for d
  proof -
    have "is_liked d (users_id u) mid \<longleftrightarrow> (\<exists>l \<in> set (likes d). \<not> ?other l)"
      by (simp add: is_liked_def Likes_filter_by_def filter_empty_conv)
    also have "\<dots> \<longleftrightarrow> ?new \<in> set (likes d)"
      unfolding key by simp
    finally show ?thesis .
  qed
  show ?thesis
  proof (cases "is_liked db (users_id u) mid")
    case True
    then have a1: "likes db1 = filter ?other (likes db)" using l1 by simp
    then have n1: "\<not> is_liked db1 (users_id u) mid" by (simp add: liked_iff)
    then have a2: "likes db2 = filter ?other (likes db) @ [?new]" using l2 a1 by simp
    have s2: "set (likes db2) = set (likes db)"
      using True unfolding a2 liked_iff by (auto simp: key)
    have d1: "distinct (likes db1)" using pk a1 by simp
    have d2: "distinct (likes db2)" using pk unfolding a2 by (auto simp: key)
    have c1: "Likes_filter_by db1 (users_id u) mid = []"
      using n1 by (simp add: is_liked_def)
    have c2: "Likes_filter_by db2 (users_id u) mid = [?new]"
      unfolding Likes_filter_by_def a2 by (simp add: filter_empty_conv)
    from True n1 s2 d1 d2 c1 c2 show ?thesis by (simp add: liked_iff)
  next
    case False
    then have a1: "likes db1 = likes db @ [?new]" using l1 by simp
    then have y1: "is_liked db1 (users_id u) mid" by (simp add: liked_iff)
    have notin: "?new \<notin> set (likes db)" using False by (simp add: liked_iff)
    then have f0: "filter ?other (likes db) = likes db"
      unfolding filter_id_conv key by blast
    have a2: "likes db2 = likes db" using l2 y1 a1 f0 by simp
    have d1: "distinct (likes db1)" using pk notin unfolding a1 by simp
    have c0: "Likes_filter_by db (users_id u) mid = []"
      using False by (simp add: is_liked_def)
    have c1: "Likes_filter_by db1 (users_id u) mid = [?new]"
      using c0 unfolding Likes_filter_by_def a1 by simp
    have c2: "Likes_filter_by db2 (users_id u) mid = []"
      using c0 unfolding Likes_filter_by_def a2 by simp
    from False y1 a2 d1 pk c1 c2 show ?thesis by (simp add: liked_iff)
  qed
qed


theorem toggle_like_twice_witness:
  "add_user_to_g db_feed (Some 1) = Some alice
   \<and> Message_get db_feed 2 = Some m2
   \<and> messages_user_id m2 \<noteq> users_id alice
   \<and> distinct (likes db_feed)
   \<and> \<not> is_liked db_feed (users_id alice) 2
   \<and> is_liked (snd (snd (toggle_like db_feed (Some 1) 2))) (users_id alice) 2
   \<and> \<not> is_liked (snd (snd (toggle_like (snd (snd (toggle_like db_feed (Some 1) 2))) (Some 1) 2)))
          (users_id alice) 2"
proof -
  have g: "add_user_to_g db_feed (Some 1) = Some alice" by code_simp
  have m: "Message_get db_feed 2 = Some m2" by code_simp
  have na: "messages_user_id m2 \<noteq> users_id alice" by code_simp
  have pk: "distinct (likes db_feed)" by code_simp
  have n: "\<not> is_liked db_feed (users_id alice) 2" by code_simp
  from toggle_like_twice [OF g m na pk refl refl] g m na pk n show ?thesis by simp
qed

text \<open>
  C5. When the logged-in user is the author of the message, the toggle flashes the warning
  that one cannot like one's own message and redirects; the database it leaves is the one
  it was given, so no row of likes is created or deleted.
\<close>

theorem toggle_like_own_message:
  assumes "add_user_to_g db session = Some u"
    and "Message_get db mid = Some msg"
    and "messages_user_id msg = users_id u"
  shows "toggle_like db session mid
         = (Redirect (Url_referrer_or (Url_user (users_id u))), [Cannot_like_own_message], db)"
  using assms by (simp add: toggle_like_def)

theorem toggle_like_own_message_witness:
  "add_user_to_g db_feed (Some 1) = Some alice
   \<and> Message_get db_feed 3 = Some m3
   \<and> messages_user_id m3 = users_id alice
   \<and> toggle_like db_feed (Some 1) 3
       = (Redirect (Url_referrer_or (Url_user 1)), [Cannot_like_own_message], db_feed)"
proof -
  have g: "add_user_to_g db_feed (Some 1) = Some alice" by code_simp
  have m: "Message_get db_feed 3 = Some m3" by code_simp
  have a: "messages_user_id m3 = users_id alice" by code_simp
  have i: "users_id alice = 1" by code_simp
  from toggle_like_own_message [OF g m a] g m a show ?thesis by (simp add: i)
qed

section \<open>Deleting a user\<close>

lemma session_delete_user_tables:
  "users (session_delete_user db u) = filter (\<lambda>r. users_id r \<noteq> users_id u) (users db)"
  "messages (session_delete_user db u)
     = filter (\<lambda>m. messages_user_id m \<noteq> users_id u) (messages db)"
  "follows (session_delete_user db u)
     = filter (\<lambda>f. user_being_followed_id f \<noteq> users_id u \<and> user_following_id f \<noteq> users_id u)
              (follows db)"
  "likes (session_delete_user db u)
     = filter (\<lambda>l. \<not> list_ex (\<lambda>m. messages_user_id m = users_id u
                                    \<and> messages_id m = likes_message_id l) (messages db))
              (filter (\<lambda>l. likes_user_id l \<noteq> users_id u) (likes db))"
  by (simp_all add: session_delete_user_def delete_messages_where_def Let_def)

lemma session_delete_user_fk:
  assumes "fk_ok db"
  shows "fk_ok (session_delete_user db u)"
proof -
  let ?db' = "session_delete_user db u"
  have msgs: "\<forall>m \<in> set (messages ?db'). \<exists>r \<in> set (users ?db'). users_id r = messages_user_id m"
    using assms unfolding session_delete_user_tables fk_ok_def list_all_iff list_ex_iff
    by fastforce
  have fols: "\<forall>f \<in> set (follows ?db').
      (\<exists>r \<in> set (users ?db'). users_id r = user_being_followed_id f)
      \<and> (\<exists>r \<in> set (users ?db'). users_id r = user_following_id f)"
    using assms unfolding session_delete_user_tables fk_ok_def list_all_iff list_ex_iff
    by fastforce
  have lks: "\<forall>l \<in> set (likes ?db').
      (\<exists>r \<in> set (users ?db'). users_id r = likes_user_id l)
      \<and> (\<exists>m \<in> set (messages ?db'). messages_id m = likes_message_id l)"
  proof
    fix l assume l: "l \<in> set (likes ?db')"
    then have l0: "l \<in> set (likes db)" and lu: "likes_user_id l \<noteq> users_id u"
      and lm: "\<forall>m \<in> set (messages db). messages_user_id m = users_id u
                 \<longrightarrow> messages_id m \<noteq> likes_message_id l"
      unfolding session_delete_user_tables list_ex_iff by auto
    from assms l0 obtain r m where r: "r \<in> set (users db)" "users_id r = likes_user_id l"
      and m: "m \<in> set (messages db)" "messages_id m = likes_message_id l"
      unfolding fk_ok_def list_all_iff list_ex_iff by blast
    from r lu have "r \<in> set (users ?db')" unfolding session_delete_user_tables by simp
    moreover from m lm have "m \<in> set (messages ?db')"
      unfolding session_delete_user_tables by auto
    ultimately show "(\<exists>r \<in> set (users ?db'). users_id r = likes_user_id l)
      \<and> (\<exists>m \<in> set (messages ?db'). messages_id m = likes_message_id l)"
      using r m by blast
  qed
  from msgs fols lks show ?thesis
    unfolding fk_ok_def list_all_iff list_ex_iff by blast
qed

text \<open>
  C6. After a logged-in user deletes the account, no row of users has the user's id, no
  message has the user as author, no row of follows has the user on either side, and no
  row of likes has the user as liker or points at a message the user wrote; when every
  foreign key pointed at a row before, every foreign key points at a row afterwards.
\<close>

theorem delete_user_cascades:
  assumes "add_user_to_g db session = Some u"
    and "delete_user db session = ((r, fl, db'), session')"
  shows "(\<forall>x \<in> set (users db'). users_id x \<noteq> users_id u)
         \<and> (\<forall>m \<in> set (messages db'). messages_user_id m \<noteq> users_id u)
         \<and> (\<forall>f \<in> set (follows db').
               user_following_id f \<noteq> users_id u \<and> user_being_followed_id f \<noteq> users_id u)
         \<and> (\<forall>l \<in> set (likes db').
               likes_user_id l \<noteq> users_id u
               \<and> (\<forall>m \<in> set (messages db). messages_user_id m = users_id u
                      \<longrightarrow> likes_message_id l \<noteq> messages_id m))
         \<and> (fk_ok db \<longrightarrow> fk_ok db')"
proof -
  from assms have db': "db' = session_delete_user db u"
    by (simp add: delete_user_def)
  show ?thesis
    unfolding db' session_delete_user_tables list_ex_iff
    using session_delete_user_fk [of db u] by auto
qed

theorem delete_user_cascades_witness:
  "add_user_to_g db_feed (Some 1) = Some alice
   \<and> delete_user db_feed (Some 1) = ((Redirect Url_signup, [], db_feed_without_alice), None)
   \<and> fk_ok db_feed \<and> fk_ok db_feed_without_alice
   \<and> list_all (\<lambda>x. users_id x \<noteq> users_id alice) (users db_feed_without_alice)
   \<and> list_all (\<lambda>m. messages_user_id m \<noteq> users_id alice) (messages db_feed_without_alice)
   \<and> list_all (\<lambda>f. user_following_id f \<noteq> users_id alice
                     \<and> user_being_followed_id f \<noteq> users_id alice)
        (follows db_feed_without_alice)
   \<and> list_all (\<lambda>l. likes_user_id l \<noteq> users_id alice) (likes db_feed_without_alice)"
proof -
  have g: "add_user_to_g db_feed (Some 1) = Some alice" by code_simp
  have d: "delete_user db_feed (Some 1)
             = ((Redirect Url_signup, [], db_feed_without_alice), None)" by code_simp
  have fk: "fk_ok db_feed" by code_simp
  from delete_user_cascades [OF g d] g d fk show ?thesis
    unfolding list_all_iff by blast
qed

section \<open>Missing rows\<close>

lemma users_show_not_found:
  "User_get db i = None \<Longrightarrow> users_show db session i = (Abort 404, [], db)"
  by (simp add: users_show_def)

lemma add_follow_not_found:
  "add_user_to_g db session = Some u \<Longrightarrow> User_get db i = None \<Longrightarrow>
     add_follow db session i = (Abort 404, [], db)"
  by (simp add: add_follow_def)

lemma toggle_like_not_found:
  "add_user_to_g db session = Some u \<Longrightarrow> Message_get db i = None \<Longrightarrow>
     toggle_like db session i = (Abort 404, [], db)"
  by (simp add: toggle_like_def)

text \<open>
  C8 at a concrete request. Alice is logged in and no user has the id 999: the profile
  view, the follow and the like toggle answer with status 404, and \<open>stop_following\<close>,
  which reads the row with \<open>get\<close> and not \<open>get_or_404\<close>, raises \<open>ValueError\<close>.
\<close>

theorem stop_following_missing_user_raises:
  "add_user_to_g db_feed (Some 1) = Some alice
   \<and> User_get db_feed 999 = None
   \<and> stop_following db_feed (Some 1) 999 = (Raise ValueError, [], db_feed)
   \<and> add_follow db_feed (Some 1) 999 = (Abort 404, [], db_feed)
   \<and> users_show db_feed (Some 1) 999 = (Abort 404, [], db_feed)
   \<and> toggle_like db_feed (Some 1) 999 = (Abort 404, [], db_feed)"
  by code_simp

text \<open>
  C9. A logged-in user asks to stop following an id that belongs to no user, or to a user
  with no row of follows from the logged-in user: the removal from the list raises
  \<open>ValueError\<close>, nothing is committed, and the database is the one given.
\<close>

theorem stop_following_unguarded:
  assumes "add_user_to_g db session = Some u"
    and "User_get db follow_id = None
         \<or> \<not> list_ex (\<lambda>f. user_following_id f = users_id u
                           \<and> user_being_followed_id f = follow_id) (follows db)"
  shows "stop_following db session follow_id = (Raise ValueError, [], db)"
proof (cases "User_get db follow_id")
  case None
  with assms(1) show ?thesis
    by (simp add: stop_following_def following_remove_def)
next
  case (Some v)
  then have v: "users_id v = follow_id" by (simp add: User_get_SomeD)
  from Some assms(2) have "\<not> list_ex (\<lambda>f. user_following_id f = users_id u
                           \<and> user_being_followed_id f = follow_id) (follows db)"
    by simp
  with v have "v \<notin> set (following db u)"
    by (auto simp: following_def list_ex_iff)
  with Some assms(1) show ?thesis
    by (simp add: stop_following_def following_remove_def)
qed

theorem stop_following_unguarded_witness:
  "add_user_to_g db_two (Some 1) = Some alice
   \<and> User_get db_two 999 = None
   \<and> stop_following db_two (Some 1) 999 = (Raise ValueError, [], db_two)
   \<and> User_get db_two 3 = Some carol
   \<and> \<not> list_ex (\<lambda>f. user_following_id f = users_id alice
                     \<and> user_being_followed_id f = 3) (follows db_two)
   \<and> stop_following db_two (Some 1) 3 = (Raise ValueError, [], db_two)"
proof -
  have g: "add_user_to_g db_two (Some 1) = Some alice" by code_simp
  have n: "User_get db_two 999 = None" by code_simp
  have c: "User_get db_two 3 = Some carol" by code_simp
  have e: "\<not> list_ex (\<lambda>f. user_following_id f = users_id alice
                     \<and> user_being_followed_id f = 3) (follows db_two)" by code_simp
  from stop_following_unguarded [OF g disjI1, OF n]
       stop_following_unguarded [OF g disjI2, OF e] g n c e
  show ?thesis by blast
qed

section \<open>Profile update\<close>

text \<open>
  C10. When the profile update of a logged-in user succeeds (it redirects and flashes that
  the profile is updated), the table of users is the old one with the rows of the user's id
  replaced by one row: it has the user's id and stored password, the submitted username,
  email, location and bio, and the submitted image URLs, where a blank one (the empty
  string) keeps the previous value. The rows of other users and the other tables are as
  before.
\<close>

theorem profile_update_frame:
  assumes "add_user_to_g db session = Some u"
    and "profile chk db session valid form = (Redirect loc, [Profile_updated], db')"
  shows "\<exists>u'. users db' = map (\<lambda>r. if users_id r = users_id u then u' else r) (users db)
           \<and> users_id u' = users_id u \<and> password u' = password u
           \<and> username u' = form_username form \<and> email u' = form_email form
           \<and> location u' = Some (form_location form) \<and> bio u' = Some (form_bio form)
           \<and> image_url u'
               = (if form_image_url form = [] then image_url u else Some (form_image_url form))
           \<and> header_image_url u'
               = (if form_header_image_url form = [] then header_image_url u
                  else Some (form_header_image_url form))
           \<and> messages db' = messages db \<and> follows db' = follows db \<and> likes db' = likes db"
  using assms
  by (auto simp: profile_def Let_def data_or_def split: if_splits option.splits)

theorem profile_update_frame_witness:
  "add_user_to_g db_feed (Some 1) = Some alice
   \<and> profile example_check db_feed (Some 1) True form_alice
       = (Redirect (Url_user 1), [Profile_updated], db_feed\<lparr>users := [alice_edited, bob, carol]\<rparr>)
   \<and> (\<exists>u'. users (db_feed\<lparr>users := [alice_edited, bob, carol]\<rparr>)
              = map (\<lambda>r. if users_id r = users_id alice then u' else r) (users db_feed)
            \<and> users_id u' = users_id alice \<and> password u' = password alice
            \<and> image_url u' = image_url alice)"
proof -
  have g: "add_user_to_g db_feed (Some 1) = Some alice" by code_simp
  have p: "profile example_check db_feed (Some 1) True form_alice
       = (Redirect (Url_user 1), [Profile_updated], db_feed\<lparr>users := [alice_edited, bob, carol]\<rparr>)"
    by code_simp
  have b: "form_image_url form_alice = []" by code_simp
  from profile_update_frame [OF g p] obtain u' where
    "users (db_feed\<lparr>users := [alice_edited, bob, carol]\<rparr>)
              = map (\<lambda>r. if users_id r = users_id alice then u' else r) (users db_feed)"
    "users_id u' = users_id alice" "password u' = password alice"
    "image_url u' = (if form_image_url form_alice = [] then image_url alice
                     else Some (form_image_url form_alice))"
    by blast
  with b g p show ?thesis by auto
qed

end
